theory Spec2Isabelle
  imports Main "HOL-Library.Sublist" "HOL-Library.List_Lexorder"
begin

section \<open>The page: document positions, jQuery data and Ember component instances\<close>

text \<open>
  A DOM element is identified by its position in the document tree: the list of child
  indices leading to it from the document element. The ancestors of an element are the
  proper prefixes of its position, and document order (an element before its descendants,
  siblings left to right) is the lexicographic order on positions.
\<close>

type_synonym elem = "nat list"

text \<open>The \<open>elementId\<close> of a component instance; it is also the event namespace.\<close>

type_synonym iid = string

text \<open>JavaScript values as far as \<open>isLoading\<close> and \<open>isLoaded\<close> need them, with truthiness.\<close>

datatype jsval = Undefined | Null | Bool bool | Num int | Str string

fun truthy :: "jsval \<Rightarrow> bool" where
  "truthy Undefined = False"
| "truthy Null = False"
| "truthy (Bool b) = b"
| "truthy (Num n) = (n \<noteq> 0)"
| "truthy (Str s) = (s \<noteq> [])"

record jsfile =
  file_name :: string
  file_type :: string

text \<open>
  \<open>e.dataTransfer.files\<close>: a browser hands over a \<open>FileList\<close>, an array-like object with
  \<open>length\<close> and indexed items but none of the methods of \<open>Array.prototype\<close>; a caller
  that builds the event by hand may pass a real array.
\<close>

datatype filelist = FileList "jsfile list" | Array "jsfile list"

fun items :: "filelist \<Rightarrow> jsfile list" where
  "items (FileList fs) = fs"
| "items (Array fs) = fs"

datatype evtype = dragenter | dragleave | dragover | dropevent

record event =
  etype :: evtype
  target :: elem
  dataTransfer_files :: filelist
  dataTransfer_dropEffect :: "string option"
  defaultPrevented :: bool

record component =
  element :: elem
  allowMultiple :: bool
  allowedTypes :: "string \<Rightarrow> bool"
  isLoading :: jsval
  isLoaded :: jsval
  isDragging :: bool
  isDraggingOver :: bool
  isDropped :: bool
  fileProp :: "jsfile option"
  files :: "jsfile list option"
  invalidFileType :: bool
  fileDropped :: bool

text \<open>
  \<open>allowedTypes\<close> is the regular expression as the predicate "the string has a match";
  \<open>invalidFileType\<close> and \<open>fileDropped\<close> say whether the consumer supplied that handler.
  A handler that is called is recorded in the page's \<open>calls\<close>.
\<close>

datatype call = InvalidFileType_call iid jsfile | FileDropped_call iid jsfile

record page =
  rootElement :: elem
  classed :: "elem list"
  jqdata :: "elem \<times> string \<Rightarrow> int option"
  dragOverClass :: "elem \<Rightarrow> bool"
  listeners :: "iid list"
  inst :: "iid \<Rightarrow> component"
  calls :: "call list"

text \<open>
  \<open>classed\<close> lists the elements of the document that carry the class
  \<open>file-drop-target\<close> (every component element does, by \<open>classNames\<close>); \<open>jqdata\<close> is
  jQuery's data store, by element and key; \<open>dragOverClass\<close> says which elements carry
  the class \<open>file-drop-target-drag-over\<close>. An entry \<open>i\<close> of \<open>listeners\<close> is one
  registration \<open>$root.on('dragenter.i dragleave.i', bind(this, this.calculateDropCount))\<close>
  of the instance \<open>i\<close>, in the order of registration.
\<close>

definition allowedTypes_default :: "string \<Rightarrow> bool" where
  \<comment> \<open>\<open>/.+/\<close>: some character that is not a line terminator\<close>
  "allowedTypes_default s = (filter (\<lambda>c. c \<noteq> CHR 0x0A \<and> c \<noteq> CHR 0x0D) s \<noteq> [])"

definition new_component :: "elem \<Rightarrow> component" where
  "new_component el =
     \<lparr>element = el, allowMultiple = False, allowedTypes = allowedTypes_default,
      isLoading = Undefined, isLoaded = Undefined,
      isDragging = False, isDraggingOver = False, isDropped = False,
      fileProp = None, files = None, invalidFileType = False, fileDropped = False\<rparr>"

definition isEmpty :: "component \<Rightarrow> bool" where
  "isEmpty c = (\<not> (truthy (isLoading c) \<or> truthy (isLoaded c)))"

section \<open>Registration of the listeners\<close>

definition setupEventListeners :: "iid \<Rightarrow> page \<Rightarrow> page" where
  "setupEventListeners self s = s\<lparr>listeners := listeners s @ [self]\<rparr>"

definition teardownEventListeners :: "iid \<Rightarrow> page \<Rightarrow> page" where
  "teardownEventListeners self s = s\<lparr>listeners := filter (\<lambda>i. i \<noteq> self) (listeners s)\<rparr>"

section \<open>Counting \<open>dragenter\<close> and \<open>dragleave\<close>\<close>

definition rootDragOver :: "page \<Rightarrow> bool" where
  "rootDragOver s = dragOverClass s (rootElement s)"

definition didDragOver :: "iid \<Rightarrow> page \<Rightarrow> page" where
  "didDragOver self s = s\<lparr>inst := (inst s)(self := (inst s self)\<lparr>isDraggingOver := True\<rparr>)\<rparr>"

definition didDragOff :: "iid \<Rightarrow> page \<Rightarrow> page" where
  "didDragOff self s = s\<lparr>inst := (inst s)(self := (inst s self)\<lparr>isDraggingOver := False\<rparr>)\<rparr>"

definition didDragOverRoot :: "iid \<Rightarrow> page \<Rightarrow> page" where
  "didDragOverRoot self s =
     s\<lparr>inst := (inst s)(self := (inst s self)\<lparr>isDragging := True\<rparr>),
       dragOverClass := (dragOverClass s)(rootElement s := True)\<rparr>"

definition didDragOffRoot :: "iid \<Rightarrow> page \<Rightarrow> page" where
  "didDragOffRoot self s =
     s\<lparr>inst := (inst s)(self := (inst s self)\<lparr>isDragging := False\<rparr>),
       dragOverClass := (dragOverClass s)(rootElement s := False)\<rparr>"

text \<open>\<open>$(x).data('dragcount') || 0\<close>\<close>

definition dragcount :: "page \<Rightarrow> elem \<Rightarrow> int" where
  "dragcount s x = (case jqdata s (x, ''dragcount'') of None \<Rightarrow> 0 | Some v \<Rightarrow> v)"

text \<open>
  jQuery keeps a set of elements without duplicates and in document order; \<open>.add\<close> merges
  and sorts again.
\<close>

definition uniqueSort :: "elem list \<Rightarrow> elem list" where
  "uniqueSort xs = sort (remdups xs)"

definition jq_add :: "elem list \<Rightarrow> elem list \<Rightarrow> elem list" where
  "jq_add xs ys = uniqueSort (xs @ ys)"

text \<open>
  \<open>$(e.target).parents().addBack().filter('.file-drop-target').add($root)\<close>: the target and
  its ancestors are the prefixes of the target's position, already in document order.
\<close>

definition dropTargets :: "page \<Rightarrow> elem \<Rightarrow> elem list" where
  "dropTargets s t =
     jq_add (filter (\<lambda>x. x \<in> set (classed s)) (prefixes t)) [rootElement s]"

text \<open>The body of \<open>.each\<close>, for the element \<open>this\<close>.\<close>

definition countElement :: "evtype \<Rightarrow> iid \<Rightarrow> elem \<Rightarrow> page \<Rightarrow> page" where
  "countElement ty self this s =
     (let offset = (if ty = dragenter then 1 else - 1);
          dragCount = dragcount s this + offset;
          s1 = s\<lparr>jqdata := (jqdata s)((this, ''dragcount'') \<mapsto> dragCount)\<rparr>;
          isRoot = (this = rootElement s)
      in if dragCount > 0
         then (if isRoot then didDragOverRoot self s1 else didDragOver self s1)
         else (if isRoot then didDragOffRoot self s1 else didDragOff self s1))"

definition calculateDropCount :: "iid \<Rightarrow> event \<Rightarrow> page \<Rightarrow> event \<times> page" where
  "calculateDropCount self e s =
     (e\<lparr>defaultPrevented := True\<rparr>,
      fold (countElement (etype e) self) (dropTargets s (target e)) s)"

text \<open>
  A \<open>dragenter\<close> or \<open>dragleave\<close> event bubbles from its target to the root element when the
  target is the root or lies below it; there every registered handler runs, in the order
  of registration.
\<close>

definition runHandlers :: "iid list \<Rightarrow> event \<times> page \<Rightarrow> event \<times> page" where
  "runHandlers hs es = fold (\<lambda>self (e', s'). calculateDropCount self e' s') hs es"

definition trigger :: "event \<Rightarrow> page \<Rightarrow> event \<times> page" where
  "trigger e s =
     (if (etype e = dragenter \<or> etype e = dragleave) \<and> prefix (rootElement s) (target e)
      then runHandlers (listeners s) (e, s)
      else (e, s))"

fun trigger_all :: "event list \<Rightarrow> page \<Rightarrow> page" where
  "trigger_all [] s = s"
| "trigger_all (e # es) s = trigger_all es (snd (trigger e s))"

section \<open>\<open>dragover\<close>\<close>

definition getDropEffect :: "iid \<Rightarrow> page \<Rightarrow> string" where
  "getDropEffect self s =
     (case jqdata s (element (inst s self), ''dropcount'') of
        None \<Rightarrow> ''none''
      | Some v \<Rightarrow> if v > 0 then ''copy'' else ''none'')"

definition dragOver :: "iid \<Rightarrow> event \<Rightarrow> page \<Rightarrow> event \<times> page" where
  "dragOver self e s = (e\<lparr>defaultPrevented := True\<rparr>, s)"

definition dragEnter :: "iid \<Rightarrow> event \<Rightarrow> page \<Rightarrow> event \<times> page" where
  "dragEnter self e s = (e\<lparr>defaultPrevented := True\<rparr>, s)"

text \<open>
  The \<open>dragOver\<close> of \<open>addon/components/file-drop-target.js\<close>, which writes the effect into
  the event; its \<open>getDropEffect\<close> is the same function.
\<close>

definition dragOver_addon :: "iid \<Rightarrow> event \<Rightarrow> page \<Rightarrow> event \<times> page" where
  "dragOver_addon self e s =
     (let e1 = e\<lparr>defaultPrevented := True\<rparr>;
          dropEffect = getDropEffect self s
      in (e1\<lparr>dataTransfer_dropEffect := Some dropEffect\<rparr>, s))"

section \<open>\<open>drop\<close>\<close>

datatype outcome = Returned | TypeError

definition removeData :: "elem list \<Rightarrow> string \<Rightarrow> page \<Rightarrow> page" where
  "removeData xs k s = s\<lparr>jqdata := (\<lambda>(x, k'). if x \<in> set xs \<and> k' = k then None else jqdata s (x, k'))\<rparr>"

text \<open>\<open>files.slice(0, 1)\<close>: \<open>slice\<close> is a method of arrays only.\<close>

fun slice01 :: "filelist \<Rightarrow> filelist option" where
  "slice01 (Array fs) = Some (Array (take 1 fs))"
| "slice01 (FileList fs) = None"

text \<open>
  The callback of \<open>Array.prototype.filter.call(files, ...)\<close>, run over the items in order:
  the kept files and the page with the notifications.
\<close>

fun filterFiles :: "iid \<Rightarrow> (string \<Rightarrow> bool) \<Rightarrow> jsfile list \<Rightarrow> page \<Rightarrow> jsfile list \<times> page" where
  "filterFiles self allowed [] s = ([], s)"
| "filterFiles self allowed (f # fs) s =
     (let isAllowed = allowed (file_type f);
          s1 = (if \<not> isAllowed \<and> invalidFileType (inst s self)
                then s\<lparr>calls := calls s @ [InvalidFileType_call self f]\<rparr> else s);
          (kept, s2) = filterFiles self allowed fs s1
      in (if isAllowed then f # kept else kept, s2))"

definition fileWasDropped :: "iid \<Rightarrow> jsfile \<Rightarrow> page \<Rightarrow> page" where
  "fileWasDropped self f s =
     (if fileDropped (inst s self) then s\<lparr>calls := calls s @ [FileDropped_call self f]\<rparr> else s)"

text \<open>The state after "Clean up drag counters".\<close>

definition cleanUp :: "iid \<Rightarrow> page \<Rightarrow> page" where
  "cleanUp self s =
     (let s1 = didDragOff self s;
          s2 = didDragOffRoot self s1
      in removeData (jq_add (classed s2) [rootElement s2]) ''dragcount'' s2)"

definition drop_event :: "iid \<Rightarrow> event \<Rightarrow> page \<Rightarrow> outcome \<times> event \<times> page" where
  "drop_event self e s =
     (let allowMultiple' = allowMultiple (inst s self);
          allowedTypes' = allowedTypes (inst s self);
          e1 = e\<lparr>defaultPrevented := True\<rparr>;
          s1 = cleanUp self s;
          fl = dataTransfer_files e
      in if length (items fl) = 0 then (Returned, e1, s1)
         else
           (case (if length (items fl) > 1 \<and> \<not> allowMultiple' then slice01 fl else Some fl) of
              None \<Rightarrow> (TypeError, e1, s1)
            | Some fl' \<Rightarrow>
                (let (kept, s2) = filterFiles self allowedTypes' (items fl') s1;
                     s3 = s2\<lparr>inst := (inst s2)(self := (inst s2 self)\<lparr>isDropped := True\<rparr>)\<rparr>;
                     s4 = fold (fileWasDropped self) kept s3;
                     s5 = (if allowMultiple'
                           then s4\<lparr>inst := (inst s4)(self := (inst s4 self)\<lparr>files := Some kept\<rparr>)\<rparr>
                           else s4\<lparr>inst := (inst s4)(self := (inst s4 self)
                                      \<lparr>fileProp := (case kept of [] \<Rightarrow> None | f # _ \<Rightarrow> Some f)\<rparr>)\<rparr>)
                 in (Returned, e1, s5))))"

section \<open>The variant \<open>addon/components/file-drop-target.js\<close>\<close>

text \<open>
  This variant of the component keeps no flags: its hooks \<open>dragOverElement\<close> and \<open>dragOffElement\<close> put
  the class \<open>file-drop-target-drag-over\<close> on the counted element itself and take it off.
  The root is the body element. The counting is otherwise the same.
\<close>

definition dragOverElement :: "iid \<Rightarrow> elem \<Rightarrow> page \<Rightarrow> page" where
  "dragOverElement self x s = s\<lparr>dragOverClass := (dragOverClass s)(x := True)\<rparr>"

definition dragOffElement :: "iid \<Rightarrow> elem \<Rightarrow> page \<Rightarrow> page" where
  "dragOffElement self x s = s\<lparr>dragOverClass := (dragOverClass s)(x := False)\<rparr>"

definition countElement_addon :: "evtype \<Rightarrow> iid \<Rightarrow> elem \<Rightarrow> page \<Rightarrow> page" where
  "countElement_addon ty self this s =
     (let offset = (if ty = dragenter then 1 else - 1);
          dragCount = dragcount s this + offset;
          s1 = s\<lparr>jqdata := (jqdata s)((this, ''dragcount'') \<mapsto> dragCount)\<rparr>
      in if dragCount > 0 then dragOverElement self this s1 else dragOffElement self this s1)"

definition calculateDropCount_addon :: "iid \<Rightarrow> event \<Rightarrow> page \<Rightarrow> event \<times> page" where
  "calculateDropCount_addon self e s =
     (e\<lparr>defaultPrevented := True\<rparr>,
      fold (countElement_addon (etype e) self) (dropTargets s (target e)) s)"

definition runHandlers_addon :: "iid list \<Rightarrow> event \<times> page \<Rightarrow> event \<times> page" where
  "runHandlers_addon hs es = fold (\<lambda>self (e', s'). calculateDropCount_addon self e' s') hs es"

definition trigger_addon :: "event \<Rightarrow> page \<Rightarrow> event \<times> page" where
  "trigger_addon e s =
     (if (etype e = dragenter \<or> etype e = dragleave) \<and> prefix (rootElement s) (target e)
      then runHandlers_addon (listeners s) (e, s)
      else (e, s))"

fun trigger_all_addon :: "event list \<Rightarrow> page \<Rightarrow> page" where
  "trigger_all_addon [] s = s"
| "trigger_all_addon (e # es) s = trigger_all_addon es (snd (trigger_addon e s))"

text \<open>
  Its \<open>drop\<close> cleans up with \<open>this.$().add('body').removeData('dragCount')\<close>: the own element
  and the body, under a key with a capital C.
\<close>

definition cleanUp_addon :: "iid \<Rightarrow> page \<Rightarrow> page" where
  "cleanUp_addon self s =
     removeData (jq_add [element (inst s self)] [rootElement s]) ''dragCount'' s"

section \<open>Auxiliary notions for the statements\<close>

definition offset_of :: "evtype \<Rightarrow> int" where
  "offset_of ty = (if ty = dragenter then 1 else - 1)"

text \<open>
  A sequence of events is balanced per element when every element is the target of as many
  \<open>dragenter\<close> as \<open>dragleave\<close> events.
\<close>

definition enters :: "event list \<Rightarrow> elem \<Rightarrow> nat" where
  "enters es x = length (filter (\<lambda>e. etype e = dragenter \<and> target e = x) es)"

definition leaves :: "event list \<Rightarrow> elem \<Rightarrow> nat" where
  "leaves es x = length (filter (\<lambda>e. etype e = dragleave \<and> target e = x) es)"

definition balanced :: "event list \<Rightarrow> bool" where
  "balanced es = list_all (\<lambda>x. enters es x = leaves es x) (map target es)"

text \<open>The files that remain after the limit to a single file.\<close>

definition considered :: "bool \<Rightarrow> jsfile list \<Rightarrow> jsfile list" where
  "considered multiple fs = (if length fs > 1 \<and> \<not> multiple then take 1 fs else fs)"

text \<open>Every counter in the store belongs to an element with the class or to the root.\<close>

definition tracked :: "page \<Rightarrow> bool" where
  "tracked s =
     (\<forall>x. jqdata s (x, ''dragcount'') \<noteq> None \<longrightarrow> x \<in> set (classed s) \<or> x = rootElement s)"

text \<open>The signed contribution of an event: \<open>+1\<close> for an enter, \<open>-1\<close> for a leave.\<close>

definition weight :: "event \<Rightarrow> int" where
  "weight e = (if etype e = dragenter then 1 else if etype e = dragleave then - 1 else 0)"

text \<open>\<open>reach s y t\<close> is 1 when an event on \<open>t\<close> is counted at the element \<open>y\<close>, and 0 otherwise.\<close>

definition reach :: "page \<Rightarrow> elem \<Rightarrow> elem \<Rightarrow> int" where
  "reach s y t = (if prefix (rootElement s) t \<and> y \<in> set (dropTargets s t) then 1 else 0)"

text \<open>The enters minus the leaves at an element.\<close>

definition net :: "event list \<Rightarrow> elem \<Rightarrow> int" where
  "net es x = int (enters es x) - int (leaves es x)"

text \<open>
  Flags that are on are backed by a positive counter: the hover flag of the instance by
  the counter of some element other than the root, its page-wide flag by the root's.
\<close>

definition hoverInv :: "iid \<Rightarrow> page \<Rightarrow> bool" where
  "hoverInv i s =
     ((isDraggingOver (inst s i) \<longrightarrow> (\<exists>x. x \<noteq> rootElement s \<and> dragcount s x > 0)) \<and>
      (isDragging (inst s i) \<longrightarrow> dragcount s (rootElement s) > 0))"

text \<open>
  A page whose only drop target is the element \<open>el\<close> of the instance \<open>i\<close>, with no handler
  of another instance registered, on which the flags of \<open>i\<close> say what the counters say.
\<close>

definition ownInv :: "iid \<Rightarrow> elem \<Rightarrow> page \<Rightarrow> bool" where
  "ownInv i el s =
     (element (inst s i) = el \<and> el \<noteq> rootElement s \<and> set (classed s) = {el} \<and>
      set (listeners s) \<subseteq> {i} \<and>
      isDraggingOver (inst s i) = (dragcount s el > 0) \<and>
      isDragging (inst s i) = (dragcount s (rootElement s) > 0))"

text \<open>Nothing is stored under the key \<open>dropcount\<close>.\<close>

definition no_dropcount :: "page \<Rightarrow> bool" where
  "no_dropcount s = (\<forall>x. jqdata s (x, ''dropcount'') = None)"

text \<open>An element carries the drag-over class exactly when its counter is positive.\<close>

definition classInv :: "page \<Rightarrow> bool" where
  "classInv s = (\<forall>x. dragOverClass s x = (dragcount s x > 0))"

section \<open>Concrete pages and events\<close>

definition dragEvent :: "evtype \<Rightarrow> elem \<Rightarrow> event" where
  "dragEvent ty t =
     \<lparr>etype = ty, target = t, dataTransfer_files = FileList [],
      dataTransfer_dropEffect = None, defaultPrevented = False\<rparr>"

definition dropOf :: "elem \<Rightarrow> filelist \<Rightarrow> event" where
  "dropOf t fl =
     \<lparr>etype = dropevent, target = t, dataTransfer_files = fl,
      dataTransfer_dropEffect = None, defaultPrevented = False\<rparr>"

text \<open>
  A page whose root element is at position \<open>[0]\<close>, with no listener and no data yet.
\<close>

definition freshPage :: "elem list \<Rightarrow> (iid \<Rightarrow> component) \<Rightarrow> page" where
  "freshPage cl cs =
     \<lparr>rootElement = [0], classed = cl, jqdata = (\<lambda>_. None), dragOverClass = (\<lambda>_. False),
      listeners = [], inst = cs, calls = []\<rparr>"

text \<open>One mounted target, instance \<open>ember1\<close>, at \<open>[0, 0]\<close>; \<open>[0, 0, 0]\<close> is a plain child of it.\<close>

definition singlePage :: page where
  "singlePage = setupEventListeners ''ember1'' (freshPage [[0, 0]] (\<lambda>i. new_component [0, 0]))"

text \<open>Two mounted sibling targets: \<open>ember1\<close> at \<open>[0, 0]\<close>, \<open>ember2\<close> at \<open>[0, 1]\<close>.\<close>

definition siblingsPage :: page where
  "siblingsPage =
     setupEventListeners ''ember2'' (setupEventListeners ''ember1''
       (freshPage [[0, 0], [0, 1]] (\<lambda>i. new_component (if i = ''ember1'' then [0, 0] else [0, 1]))))"

text \<open>
  Two mounted targets, \<open>ember2\<close> at \<open>[0, 0, 0]\<close> nested in \<open>ember1\<close> at \<open>[0, 0]\<close>.
\<close>

definition nestedPage :: page where
  "nestedPage =
     setupEventListeners ''ember2'' (setupEventListeners ''ember1''
       (freshPage [[0, 0], [0, 0, 0]] (\<lambda>i. new_component (if i = ''ember1'' then [0, 0] else [0, 0, 0]))))"

definition image_only :: "string \<Rightarrow> bool" where
  \<comment> \<open>a pattern that matches the types starting with \<open>image/\<close>\<close>
  "image_only s = prefix ''image/'' s"

definition pngFile :: jsfile where
  "pngFile = \<lparr>file_name = ''a.png'', file_type = ''image/png''\<rparr>"

definition txtFile :: jsfile where
  "txtFile = \<lparr>file_name = ''b.txt'', file_type = ''text/plain''\<rparr>"

definition gifFile :: jsfile where
  "gifFile = \<lparr>file_name = ''c.gif'', file_type = ''image/gif''\<rparr>"

text \<open>A file whose type the browser could not determine: the type is the empty string.\<close>

definition untypedFile :: jsfile where
  "untypedFile = \<lparr>file_name = ''d'', file_type = []\<rparr>"

text \<open>
  A page with one mounted target, \<open>ember1\<close>, that has both handlers; \<open>m\<close> is \<open>allowMultiple\<close>, \<open>p\<close> is
  \<open>allowedTypes\<close>. The counters and flags are those after a \<open>dragenter\<close> on the target.
\<close>

definition hoveredPage :: "bool \<Rightarrow> (string \<Rightarrow> bool) \<Rightarrow> page" where
  "hoveredPage m p =
     snd (trigger (dragEvent dragenter [0, 0])
       (setupEventListeners ''ember1'' (freshPage [[0, 0]]
          (\<lambda>i. (new_component [0, 0])
             \<lparr>allowMultiple := m, allowedTypes := p, invalidFileType := True, fileDropped := True\<rparr>))))"

text \<open>The page after a drop of the files \<open>fs\<close> that runs to its end.\<close>

definition delivered :: "iid \<Rightarrow> jsfile list \<Rightarrow> page \<Rightarrow> page" where
  "delivered self fs s =
     (let c = inst s self;
          kept = filter (\<lambda>f. allowedTypes c (file_type f)) fs;
          s1 = cleanUp self s
      in s1\<lparr>calls := calls s
                @ (if invalidFileType c
                   then map (InvalidFileType_call self)
                          (filter (\<lambda>f. \<not> allowedTypes c (file_type f)) fs)
                   else [])
                @ (if fileDropped c then map (FileDropped_call self) kept else []),
            inst := (inst s1)(self :=
              (if allowMultiple c
               then (inst s1 self)\<lparr>isDropped := True, files := Some kept\<rparr>
               else (inst s1 self)\<lparr>isDropped := True,
                      fileProp := (case kept of [] \<Rightarrow> None | f # _ \<Rightarrow> Some f)\<rparr>))\<rparr>)"

text \<open>The examples that the statements below evaluate.\<close>

definition untypedFirstDrop :: "outcome \<times> event \<times> page" where
  "untypedFirstDrop =
     drop_event ''ember1'' (dropOf [0, 0] (Array [untypedFile, pngFile, gifFile]))
       (hoveredPage False allowedTypes_default)"

definition pngThenTxtDrop :: "outcome \<times> event \<times> page" where
  "pngThenTxtDrop =
     drop_event ''ember1'' (dropOf [0, 0] (Array [pngFile, txtFile])) (hoveredPage False image_only)"

definition fileListDrop :: "outcome \<times> event \<times> page" where
  "fileListDrop =
     drop_event ''ember1'' (dropOf [0, 0] (FileList [pngFile, txtFile, gifFile]))
       (hoveredPage False image_only)"

definition afterEnterA :: page where
  "afterEnterA = snd (trigger (dragEvent dragenter [0, 0]) siblingsPage)"

definition enterLeaveA :: "event list" where
  "enterLeaveA = [dragEvent dragenter [0, 0], dragEvent dragleave [0, 0]]"

definition afterEnterLeaveA :: page where
  "afterEnterLeaveA = trigger_all enterLeaveA siblingsPage"

definition afterEnterChild :: page where
  "afterEnterChild = snd (trigger (dragEvent dragenter [0, 0, 0]) singlePage)"

definition afterEnterA_addon :: page where
  "afterEnterA_addon = snd (trigger_addon (dragEvent dragenter [0, 0]) siblingsPage)"

definition afterEnterLeaveA_addon :: page where
  "afterEnterLeaveA_addon = trigger_all_addon enterLeaveA siblingsPage"

definition multiDrop :: "outcome \<times> event \<times> page" where
  "multiDrop =
     drop_event ''ember1'' (dropOf [0, 0] (FileList [pngFile, txtFile, gifFile]))
       (hoveredPage True image_only)"

section \<open>Properties of the counting\<close>

subsection \<open>What the counting leaves alone\<close>

lemma fold_countElement_preserve:
  assumes "\<And>x s. f (countElement ty self x s) = f s"
  shows "f (fold (countElement ty self) xs s) = f s"
  using assms by (induction xs arbitrary: s) simp_all

lemma calculateDropCount_event:
  "fst (calculateDropCount self e s) = e\<lparr>defaultPrevented := True\<rparr>"
  by (simp add: calculateDropCount_def)

lemma calculateDropCount_preserve:
  assumes "\<And>ty self x s. f (countElement ty self x s) = f s"
  shows "f (snd (calculateDropCount self e s)) = f s"
  using assms by (simp add: calculateDropCount_def fold_countElement_preserve)

lemma runHandlers_Nil [simp]: "runHandlers [] es = es"
  by (simp add: runHandlers_def)

lemma runHandlers_Cons:
  "runHandlers (i # hs) (e, s) = runHandlers hs (calculateDropCount i e s)"
  by (simp add: runHandlers_def)

lemma runHandlers_preserve:
  assumes "\<And>ty self x s. f (countElement ty self x s) = f s"
  shows "f (snd (runHandlers hs (e, s))) = f s"
proof (induction hs arbitrary: e s)
  case Nil
  show ?case by simp
next
  case (Cons i hs)
  obtain e1 s1 where c: "calculateDropCount i e s = (e1, s1)"
    by (cases "calculateDropCount i e s")
  have "f s1 = f s"
    using calculateDropCount_preserve [of f i e s, OF assms] c by simp
  with Cons.IH [of e1 s1] c show ?case
    by (simp add: runHandlers_Cons)
qed

lemma trigger_preserve:
  assumes "\<And>ty self x s. f (countElement ty self x s) = f s"
  shows "f (snd (trigger e s)) = f s"
  using runHandlers_preserve [of f, OF assms] by (simp add: trigger_def)

lemma trigger_all_preserve:
  assumes "\<And>ty self x s. f (countElement ty self x s) = f s"
  shows "f (trigger_all es s) = f s"
  using trigger_preserve [of f, OF assms] by (induction es arbitrary: s) simp_all

lemma countElement_rootElement: "rootElement (countElement ty self x s) = rootElement s"
  by (simp add: countElement_def Let_def didDragOver_def didDragOff_def
      didDragOverRoot_def didDragOffRoot_def)

lemma countElement_classed: "classed (countElement ty self x s) = classed s"
  by (simp add: countElement_def Let_def didDragOver_def didDragOff_def
      didDragOverRoot_def didDragOffRoot_def)

lemma countElement_listeners: "listeners (countElement ty self x s) = listeners s"
  by (simp add: countElement_def Let_def didDragOver_def didDragOff_def
      didDragOverRoot_def didDragOffRoot_def)

lemma countElement_calls: "calls (countElement ty self x s) = calls s"
  by (simp add: countElement_def Let_def didDragOver_def didDragOff_def
      didDragOverRoot_def didDragOffRoot_def)

lemma countElement_isLoading: "isLoading (inst (countElement ty self x s) i) = isLoading (inst s i)"
  by (simp add: countElement_def Let_def didDragOver_def didDragOff_def
      didDragOverRoot_def didDragOffRoot_def)

lemma countElement_isLoaded: "isLoaded (inst (countElement ty self x s) i) = isLoaded (inst s i)"
  by (simp add: countElement_def Let_def didDragOver_def didDragOff_def
      didDragOverRoot_def didDragOffRoot_def)

lemma countElement_dropTargets: "dropTargets (countElement ty self x s) t = dropTargets s t"
  by (simp add: dropTargets_def countElement_rootElement countElement_classed)

lemma countElement_dropcount:
  "jqdata (countElement ty self x s) (y, ''dropcount'') = jqdata s (y, ''dropcount'')"
  by (simp add: countElement_def Let_def didDragOver_def didDragOff_def
      didDragOverRoot_def didDragOffRoot_def)

subsection \<open>The counters\<close>

lemma dragcount_countElement:
  "dragcount (countElement ty self x s) y =
     (if y = x then dragcount s x + offset_of ty else dragcount s y)"
  by (simp add: countElement_def Let_def didDragOver_def didDragOff_def
      didDragOverRoot_def didDragOffRoot_def dragcount_def offset_of_def)

lemma dragcount_fold_countElement:
  "distinct xs \<Longrightarrow>
   dragcount (fold (countElement ty self) xs s) y =
     dragcount s y + (if y \<in> set xs then offset_of ty else 0)"
  by (induction xs arbitrary: s) (auto simp: dragcount_countElement)

lemma distinct_dropTargets: "distinct (dropTargets s t)"
  by (simp add: dropTargets_def jq_add_def uniqueSort_def)

lemma set_dropTargets:
  "set (dropTargets s t) = {x. prefix x t \<and> x \<in> set (classed s)} \<union> {rootElement s}"
  by (auto simp: dropTargets_def jq_add_def uniqueSort_def)

lemma dragcount_calculateDropCount:
  "dragcount (snd (calculateDropCount self e s)) y =
     dragcount s y + (if y \<in> set (dropTargets s (target e)) then offset_of (etype e) else 0)"
  by (simp add: calculateDropCount_def dragcount_fold_countElement distinct_dropTargets)

lemma dragcount_runHandlers:
  "dragcount (snd (runHandlers hs (e, s))) y =
     dragcount s y +
       (if y \<in> set (dropTargets s (target e)) then int (length hs) * offset_of (etype e) else 0)"
proof (induction hs arbitrary: e s)
  case Nil
  show ?case by simp
next
  case (Cons i hs)
  obtain e1 s1 where c: "calculateDropCount i e s = (e1, s1)"
    by (cases "calculateDropCount i e s")
  have ev: "etype e1 = etype e" "target e1 = target e"
    using calculateDropCount_event [of i e s] c by auto
  have d: "dropTargets s1 (target e1) = dropTargets s (target e)"
    using calculateDropCount_preserve [of "\<lambda>s. dropTargets s (target e)" i e s] c ev
    by (simp add: countElement_dropTargets)
  have "dragcount s1 y =
      dragcount s y + (if y \<in> set (dropTargets s (target e)) then offset_of (etype e) else 0)"
    using dragcount_calculateDropCount [of i e s y] c by simp
  with Cons.IH [of e1 s1] c d ev show ?case
    by (simp add: runHandlers_Cons algebra_simps)
qed

lemma dragcount_trigger:
  "dragcount (snd (trigger e s)) y =
     dragcount s y +
       (if (etype e = dragenter \<or> etype e = dragleave) \<and> prefix (rootElement s) (target e)
           \<and> y \<in> set (dropTargets s (target e))
        then int (length (listeners s)) * offset_of (etype e) else 0)"
  by (auto simp: trigger_def dragcount_runHandlers)

lemma trigger_listeners: "listeners (snd (trigger e s)) = listeners s"
  by (rule trigger_preserve) (rule countElement_listeners)

lemma trigger_rootElement: "rootElement (snd (trigger e s)) = rootElement s"
  by (rule trigger_preserve) (rule countElement_rootElement)

lemma trigger_dropTargets: "dropTargets (snd (trigger e s)) t = dropTargets s t"
  by (rule trigger_preserve [of "\<lambda>s. dropTargets s t"]) (rule countElement_dropTargets)

section \<open>Properties of the drop\<close>

lemma cleanUp_eq:
  "cleanUp self s =
     s\<lparr>inst := (inst s)(self := (inst s self)\<lparr>isDraggingOver := False, isDragging := False\<rparr>),
       dragOverClass := (dragOverClass s)(rootElement s := False),
       jqdata := (\<lambda>(x, k). if (x \<in> set (classed s) \<or> x = rootElement s) \<and> k = ''dragcount''
                            then None else jqdata s (x, k))\<rparr>"
  by (auto simp: cleanUp_def Let_def didDragOff_def didDragOffRoot_def removeData_def
      jq_add_def uniqueSort_def fun_eq_iff)

lemma filterFiles_eq:
  "filterFiles self allowed fs s =
     (filter (\<lambda>f. allowed (file_type f)) fs,
      s\<lparr>calls := calls s @
           (if invalidFileType (inst s self)
            then map (InvalidFileType_call self) (filter (\<lambda>f. \<not> allowed (file_type f)) fs)
            else [])\<rparr>)"
  by (induction fs arbitrary: s) (simp_all add: Let_def)

lemma fold_fileWasDropped_eq:
  "fold (fileWasDropped self) fs s =
     s\<lparr>calls := calls s @
          (if fileDropped (inst s self) then map (FileDropped_call self) fs else [])\<rparr>"
  by (induction fs arbitrary: s) (simp_all add: fileWasDropped_def)

lemma cleanUp_fields:
  "calls (cleanUp self s) = calls s"
  "listeners (cleanUp self s) = listeners s"
  "classed (cleanUp self s) = classed s"
  "rootElement (cleanUp self s) = rootElement s"
  "rootDragOver (cleanUp self s) = False"
  "isDraggingOver (inst (cleanUp self s) self) = False"
  "isDragging (inst (cleanUp self s) self) = False"
  "isDropped (inst (cleanUp self s) i) = isDropped (inst s i)"
  "fileProp (inst (cleanUp self s) i) = fileProp (inst s i)"
  "files (inst (cleanUp self s) i) = files (inst s i)"
  "allowMultiple (inst (cleanUp self s) i) = allowMultiple (inst s i)"
  "allowedTypes (inst (cleanUp self s) i) = allowedTypes (inst s i)"
  "invalidFileType (inst (cleanUp self s) i) = invalidFileType (inst s i)"
  "fileDropped (inst (cleanUp self s) i) = fileDropped (inst s i)"
  "element (inst (cleanUp self s) i) = element (inst s i)"
  "isLoading (inst (cleanUp self s) i) = isLoading (inst s i)"
  "isLoaded (inst (cleanUp self s) i) = isLoaded (inst s i)"
  by (simp_all add: cleanUp_eq rootDragOver_def)

lemma cleanUp_jqdata:
  "jqdata (cleanUp self s) (x, k) =
     (if (x \<in> set (classed s) \<or> x = rootElement s) \<and> k = ''dragcount'' then None else jqdata s (x, k))"
  by (simp add: cleanUp_eq)

lemma delivered_fields:
  "rootDragOver (delivered self fs s) = False"
  "isDraggingOver (inst (delivered self fs s) self) = False"
  "isDragging (inst (delivered self fs s) self) = False"
  "isDropped (inst (delivered self fs s) self) = True"
  "jqdata (delivered self fs s) = jqdata (cleanUp self s)"
  "isLoading (inst (delivered self fs s) i) = isLoading (inst s i)"
  "isLoaded (inst (delivered self fs s) i) = isLoaded (inst s i)"
  using cleanUp_fields(5) [of self s]
  by (simp_all add: delivered_def Let_def cleanUp_fields rootDragOver_def)

lemma drop_event_cases:
  "drop_event self e s =
     (let fl = dataTransfer_files e; e1 = e\<lparr>defaultPrevented := True\<rparr> in
      if items fl = [] then (Returned, e1, cleanUp self s)
      else if length (items fl) > 1 \<and> \<not> allowMultiple (inst s self)
      then (case fl of FileList fs \<Rightarrow> (TypeError, e1, cleanUp self s)
                     | Array fs \<Rightarrow> (Returned, e1, delivered self (take 1 fs) s))
      else (Returned, e1, delivered self (items fl) s))"
  by (cases "dataTransfer_files e")
     (auto simp: drop_event_def Let_def filterFiles_eq fold_fileWasDropped_eq delivered_def
           cleanUp_fields split: list.splits)

lemma drop_event_page:
  "snd (snd (drop_event self e s)) = cleanUp self s \<or>
   (\<exists>fs. snd (snd (drop_event self e s)) = delivered self fs s)"
  by (cases "dataTransfer_files e") (auto simp: drop_event_cases Let_def)

lemma drop_event_returned:
  assumes "drop_event self e s = (Returned, e', s')" and "items (dataTransfer_files e) \<noteq> []"
  shows "s' = delivered self (considered (allowMultiple (inst s self)) (items (dataTransfer_files e))) s"
  using assms
  by (cases "dataTransfer_files e")
     (auto simp: drop_event_cases Let_def considered_def split: if_splits)

lemma delivered_out:
  "calls (delivered self fs s) = calls s
     @ (if invalidFileType (inst s self)
        then map (InvalidFileType_call self)
               (filter (\<lambda>f. \<not> allowedTypes (inst s self) (file_type f)) fs)
        else [])
     @ (if fileDropped (inst s self)
        then map (FileDropped_call self) (filter (\<lambda>f. allowedTypes (inst s self) (file_type f)) fs)
        else [])"
  "files (inst (delivered self fs s) self) =
     (if allowMultiple (inst s self)
      then Some (filter (\<lambda>f. allowedTypes (inst s self) (file_type f)) fs)
      else files (inst s self))"
  "fileProp (inst (delivered self fs s) self) =
     (if allowMultiple (inst s self) then fileProp (inst s self)
      else (case filter (\<lambda>f. allowedTypes (inst s self) (file_type f)) fs of
              [] \<Rightarrow> None | f # _ \<Rightarrow> Some f))"
  by (simp_all add: delivered_def Let_def cleanUp_fields)

section \<open>Invariants of the page\<close>

subsection \<open>Balanced sequences and a single instance\<close>

text \<open>
  The counters are sums over the events, so a sequence that is balanced per element brings
  every counter back, whatever the number of registered handlers. The flags follow the
  counters when all registered handlers belong to one instance.
\<close>

lemma hoverInv_countElement: "hoverInv i s \<Longrightarrow> hoverInv i (countElement ty i x s)"
  unfolding hoverInv_def
  by (auto simp: countElement_def Let_def didDragOver_def didDragOff_def
      didDragOverRoot_def didDragOffRoot_def dragcount_def split: option.splits)

lemma hoverInv_fold: "hoverInv i s \<Longrightarrow> hoverInv i (fold (countElement ty i) xs s)"
  by (induction xs arbitrary: s) (simp_all add: hoverInv_countElement)

lemma hoverInv_runHandlers:
  "set hs \<subseteq> {i} \<Longrightarrow> hoverInv i s \<Longrightarrow> hoverInv i (snd (runHandlers hs (e, s)))"
proof (induction hs arbitrary: e s)
  case Nil
  then show ?case by simp
next
  case (Cons h hs)
  then have h: "h = i" and hs: "set hs \<subseteq> {i}" by auto
  obtain e1 s1 where c: "calculateDropCount i e s = (e1, s1)"
    by (cases "calculateDropCount i e s")
  then have "s1 = fold (countElement (etype e) i) (dropTargets s (target e)) s"
    by (simp add: calculateDropCount_def)
  with Cons.prems(2) have "hoverInv i s1" by (simp add: hoverInv_fold)
  with Cons.IH [OF hs, of s1 e1] c h show ?case
    by (simp add: runHandlers_Cons)
qed

lemma hoverInv_trigger:
  "set (listeners s) \<subseteq> {i} \<Longrightarrow> hoverInv i s \<Longrightarrow> hoverInv i (snd (trigger e s))"
  by (simp add: trigger_def hoverInv_runHandlers)

lemma hoverInv_trigger_all:
  "set (listeners s) \<subseteq> {i} \<Longrightarrow> hoverInv i s \<Longrightarrow> hoverInv i (trigger_all es s)"
proof (induction es arbitrary: s)
  case Nil
  then show ?case by simp
next
  case (Cons e es)
  have "set (listeners (snd (trigger e s))) \<subseteq> {i}"
    using Cons.prems(1) by (simp add: trigger_listeners)
  moreover have "hoverInv i (snd (trigger e s))"
    using Cons.prems by (rule hoverInv_trigger)
  ultimately show ?case using Cons.IH by simp
qed

lemma dragcount_trigger_weight:
  "dragcount (snd (trigger e s)) y =
     dragcount s y + int (length (listeners s)) * (reach s y (target e) * weight e)"
  by (auto simp: dragcount_trigger reach_def weight_def offset_of_def)

lemma reach_trigger: "reach (snd (trigger e s)) y t = reach s y t"
  by (simp add: reach_def trigger_rootElement trigger_dropTargets)

lemma dragcount_trigger_all:
  "dragcount (trigger_all es s) y =
     dragcount s y + int (length (listeners s)) * (\<Sum>e\<leftarrow>es. reach s y (target e) * weight e)"
proof (induction es arbitrary: s)
  case Nil
  show ?case by simp
next
  case (Cons e es)
  show ?case
    by (simp add: Cons.IH reach_trigger trigger_listeners dragcount_trigger_weight algebra_simps)
qed

lemma net_Nil [simp]: "net [] x = 0"
  by (simp add: net_def enters_def leaves_def)

lemma net_Cons: "net (e # es) x = net es x + (if target e = x then weight e else 0)"
  by (auto simp: net_def enters_def leaves_def weight_def)

lemma sum_by_target:
  "finite A \<Longrightarrow> target ` set es \<subseteq> A \<Longrightarrow>
     (\<Sum>e\<leftarrow>es. g (target e) * weight e) = (\<Sum>x\<in>A. g x * net es x)"
proof (induction es)
  case Nil
  show ?case by simp
next
  case (Cons e es)
  then have A: "target e \<in> A" and sub: "target ` set es \<subseteq> A" by auto
  have "(\<Sum>x\<in>A. g x * net (e # es) x)
      = (\<Sum>x\<in>A. g x * net es x) + (\<Sum>x\<in>A. if target e = x then g x * weight e else 0)"
    by (simp add: net_Cons algebra_simps sum.distrib if_distrib [of "\<lambda>w. g _ * w"] cong: if_cong)
  also have "(\<Sum>x\<in>A. if target e = x then g x * weight e else 0) = g (target e) * weight e"
    using Cons.prems(1) A by (simp add: sum.delta')
  finally show ?case
    using Cons.IH [OF Cons.prems(1) sub] by simp
qed

lemma balanced_net: "balanced es \<Longrightarrow> x \<in> target ` set es \<Longrightarrow> net es x = 0"
  by (auto simp: balanced_def net_def list_all_iff)

lemma balanced_sum_zero:
  assumes "balanced es"
  shows "(\<Sum>e\<leftarrow>es. g (target e) * weight e) = 0"
proof -
  have "(\<Sum>e\<leftarrow>es. g (target e) * weight e) = (\<Sum>x\<in>target ` set es. g x * net es x)"
    by (rule sum_by_target) simp_all
  also have "\<dots> = 0"
    using balanced_net [OF assms] by (simp add: sum.neutral)
  finally show ?thesis .
qed

theorem balanced_counters_return:
  "balanced es \<Longrightarrow> dragcount (trigger_all es s) y = dragcount s y"
  by (simp add: dragcount_trigger_all balanced_sum_zero)

theorem single_instance_balanced:
  assumes "set (listeners s) \<subseteq> {i}" and "balanced es"
    and "\<forall>x. dragcount s x = 0"
    and "\<not> isDraggingOver (inst s i)" and "\<not> isDragging (inst s i)"
  shows "(\<forall>x. dragcount (trigger_all es s) x = 0)
       \<and> \<not> isDraggingOver (inst (trigger_all es s) i)
       \<and> \<not> isDragging (inst (trigger_all es s) i)"
proof -
  have z: "dragcount (trigger_all es s) x = 0" for x
    using assms(2,3) by (simp add: balanced_counters_return)
  have "hoverInv i s" using assms(4,5) by (simp add: hoverInv_def)
  with assms(1) have "hoverInv i (trigger_all es s)" by (rule hoverInv_trigger_all)
  with z show ?thesis by (simp add: hoverInv_def)
qed

subsection \<open>A page with one drop target\<close>

lemma ownInv_countElement:
  "ownInv i el s \<Longrightarrow> x = el \<or> x = rootElement s \<Longrightarrow> ownInv i el (countElement ty i x s)"
  unfolding ownInv_def
  by (auto simp: countElement_def Let_def didDragOver_def didDragOff_def
      didDragOverRoot_def didDragOffRoot_def dragcount_def split: option.splits)

lemma ownInv_fold:
  "ownInv i el s \<Longrightarrow> \<forall>x\<in>set xs. x = el \<or> x = rootElement s \<Longrightarrow>
     ownInv i el (fold (countElement ty i) xs s)"
proof (induction xs arbitrary: s)
  case Nil
  then show ?case by simp
next
  case (Cons x xs)
  have "ownInv i el (countElement ty i x s)"
    using Cons.prems by (simp add: ownInv_countElement)
  moreover have "\<forall>y\<in>set xs. y = el \<or> y = rootElement (countElement ty i x s)"
    using Cons.prems(2) by (simp add: countElement_rootElement)
  ultimately show ?case using Cons.IH by simp
qed

lemma ownInv_calculateDropCount:
  assumes "ownInv i el s"
  shows "ownInv i el (snd (calculateDropCount i e s))"
proof -
  have "\<forall>x\<in>set (dropTargets s (target e)). x = el \<or> x = rootElement s"
    using assms by (auto simp: set_dropTargets ownInv_def)
  with assms show ?thesis
    by (simp add: calculateDropCount_def ownInv_fold)
qed

lemma ownInv_runHandlers:
  "set hs \<subseteq> {i} \<Longrightarrow> ownInv i el s \<Longrightarrow> ownInv i el (snd (runHandlers hs (e, s)))"
proof (induction hs arbitrary: e s)
  case Nil
  then show ?case by simp
next
  case (Cons h hs)
  then have h: "h = i" and hs: "set hs \<subseteq> {i}" by auto
  obtain e1 s1 where c: "calculateDropCount i e s = (e1, s1)"
    by (cases "calculateDropCount i e s")
  with ownInv_calculateDropCount [OF Cons.prems(2), of e] have "ownInv i el s1" by simp
  with Cons.IH [OF hs, of s1 e1] c h show ?case
    by (simp add: runHandlers_Cons)
qed

lemma ownInv_trigger:
  assumes "ownInv i el s"
  shows "ownInv i el (snd (trigger e s))"
proof -
  have "set (listeners s) \<subseteq> {i}" using assms by (simp add: ownInv_def)
  then have "ownInv i el (snd (runHandlers (listeners s) (e, s)))"
    using assms by (rule ownInv_runHandlers)
  with assms show ?thesis by (simp add: trigger_def)
qed

lemma ownInv_trigger_all: "ownInv i el s \<Longrightarrow> ownInv i el (trigger_all es s)"
  by (induction es arbitrary: s) (simp_all add: ownInv_trigger)

lemma ownInv_cleanUp: "ownInv i el s \<Longrightarrow> ownInv i el (cleanUp i s)"
  by (auto simp: ownInv_def cleanUp_fields dragcount_def cleanUp_jqdata)

lemma ownInv_delivered: "ownInv i el s \<Longrightarrow> ownInv i el (delivered i fs s)"
  using ownInv_cleanUp [of i el s]
  by (simp add: ownInv_def delivered_def Let_def dragcount_def cleanUp_fields)

lemma ownInv_drop_event: "ownInv i el s \<Longrightarrow> ownInv i el (snd (snd (drop_event i e s)))"
  using drop_event_page [of i e s] by (auto simp: ownInv_cleanUp ownInv_delivered)

lemma ownInv_singlePage: "ownInv ''ember1'' [0, 0] singlePage"
  by (simp add: ownInv_def singlePage_def freshPage_def setupEventListeners_def
      new_component_def dragcount_def)

theorem single_target_hover_flag:
  "ownInv i el s \<Longrightarrow>
     isDraggingOver (inst (trigger_all es s) i) = (dragcount (trigger_all es s) el > 0)"
  using ownInv_trigger_all [of i el s es] by (simp add: ownInv_def)

subsection \<open>The keys of the data store\<close>

lemma getDropEffect_none: "no_dropcount s \<Longrightarrow> getDropEffect self s = ''none''"
  by (simp add: no_dropcount_def getDropEffect_def)

lemma no_dropcount_freshPage: "no_dropcount (freshPage cl cs)"
  by (simp add: no_dropcount_def freshPage_def)

lemma no_dropcount_setup: "no_dropcount (setupEventListeners i s) = no_dropcount s"
  by (simp add: no_dropcount_def setupEventListeners_def)

lemma no_dropcount_trigger: "no_dropcount s \<Longrightarrow> no_dropcount (snd (trigger e s))"
  unfolding no_dropcount_def
  using trigger_preserve [of "\<lambda>s. jqdata s (_, ''dropcount'')" e s] countElement_dropcount
  by simp

lemma no_dropcount_drop_event:
  "no_dropcount s \<Longrightarrow> no_dropcount (snd (snd (drop_event i e s)))"
  using drop_event_page [of i e s]
  by (auto simp: no_dropcount_def delivered_fields cleanUp_jqdata)

lemma tracked_countElement:
  "tracked s \<Longrightarrow> x \<in> set (classed s) \<or> x = rootElement s \<Longrightarrow> tracked (countElement ty i x s)"
  unfolding tracked_def
  by (auto simp: countElement_def Let_def didDragOver_def didDragOff_def
      didDragOverRoot_def didDragOffRoot_def)

lemma tracked_fold:
  "tracked s \<Longrightarrow> \<forall>x\<in>set xs. x \<in> set (classed s) \<or> x = rootElement s \<Longrightarrow>
     tracked (fold (countElement ty i) xs s)"
proof (induction xs arbitrary: s)
  case Nil
  then show ?case by simp
next
  case (Cons x xs)
  have "tracked (countElement ty i x s)"
    using Cons.prems by (simp add: tracked_countElement)
  moreover have "\<forall>y\<in>set xs. y \<in> set (classed (countElement ty i x s))
      \<or> y = rootElement (countElement ty i x s)"
    using Cons.prems(2) by (simp add: countElement_rootElement countElement_classed)
  ultimately show ?case using Cons.IH by simp
qed

lemma tracked_calculateDropCount:
  "tracked s \<Longrightarrow> tracked (snd (calculateDropCount i e s))"
  by (simp add: calculateDropCount_def tracked_fold set_dropTargets)

lemma tracked_runHandlers: "tracked s \<Longrightarrow> tracked (snd (runHandlers hs (e, s)))"
proof (induction hs arbitrary: e s)
  case Nil
  then show ?case by simp
next
  case (Cons h hs)
  obtain e1 s1 where c: "calculateDropCount h e s = (e1, s1)"
    by (cases "calculateDropCount h e s")
  with tracked_calculateDropCount [OF Cons.prems, of h e] have "tracked s1" by simp
  with Cons.IH [of s1 e1] c show ?case
    by (simp add: runHandlers_Cons)
qed

lemma tracked_trigger: "tracked s \<Longrightarrow> tracked (snd (trigger e s))"
  by (simp add: trigger_def tracked_runHandlers)

lemma tracked_trigger_all: "tracked s \<Longrightarrow> tracked (trigger_all es s)"
  by (induction es arbitrary: s) (simp_all add: tracked_trigger)



section \<open>The concrete pages\<close>

lemmas eval_defs =
  hoveredPage_def singlePage_def siblingsPage_def nestedPage_def freshPage_def
  setupEventListeners_def teardownEventListeners_def dragEvent_def dropOf_def
  trigger_def runHandlers_def calculateDropCount_def dropTargets_def jq_add_def uniqueSort_def
  countElement_def dragcount_def didDragOver_def didDragOff_def didDragOverRoot_def
  didDragOffRoot_def rootDragOver_def new_component_def Let_def

lemma hoveredPage_fields:
  "rootElement (hoveredPage m p) = [0]"
  "classed (hoveredPage m p) = [[0, 0]]"
  "calls (hoveredPage m p) = []"
  "listeners (hoveredPage m p) = [''ember1'']"
  "rootDragOver (hoveredPage m p) = True"
  "jqdata (hoveredPage m p) ([0, 0], ''dragcount'') = Some 1"
  "jqdata (hoveredPage m p) ([0], ''dragcount'') = Some 1"
  "allowMultiple (inst (hoveredPage m p) ''ember1'') = m"
  "allowedTypes (inst (hoveredPage m p) ''ember1'') = p"
  "invalidFileType (inst (hoveredPage m p) ''ember1'') = True"
  "fileDropped (inst (hoveredPage m p) ''ember1'') = True"
  "isDragging (inst (hoveredPage m p) ''ember1'') = True"
  "isDraggingOver (inst (hoveredPage m p) ''ember1'') = True"
  "isDropped (inst (hoveredPage m p) ''ember1'') = False"
  "fileProp (inst (hoveredPage m p) ''ember1'') = None"
  "files (inst (hoveredPage m p) ''ember1'') = None"
  by (simp_all add: eval_defs)

lemma file_types:
  "image_only (file_type pngFile)" "image_only (file_type gifFile)"
  "\<not> image_only (file_type txtFile)" "\<not> allowedTypes_default (file_type untypedFile)"
  "allowedTypes_default (file_type pngFile)"
  by (simp_all add: image_only_def pngFile_def gifFile_def txtFile_def untypedFile_def
      allowedTypes_default_def)

lemma singlePage_fields:
  "rootElement singlePage = [0]" "classed singlePage = [[0, 0]]"
  "listeners singlePage = [''ember1'']" "dragcount singlePage x = 0"
  "jqdata singlePage k = None"
  by (simp_all add: singlePage_def freshPage_def setupEventListeners_def dragcount_def)

lemma nestedPage_fields:
  "rootElement nestedPage = [0]" "classed nestedPage = [[0, 0], [0, 0, 0]]"
  "listeners nestedPage = [''ember1'', ''ember2'']" "dragcount nestedPage x = 0"
  by (simp_all add: nestedPage_def freshPage_def setupEventListeners_def dragcount_def)

lemma siblingsPage_fields:
  "rootElement siblingsPage = [0]" "classed siblingsPage = [[0, 0], [0, 1]]"
  "listeners siblingsPage = [''ember1'', ''ember2'']" "dragcount siblingsPage x = 0"
  by (simp_all add: siblingsPage_def freshPage_def setupEventListeners_def dragcount_def)

section \<open>The variant without flags counts per element\<close>

lemma classInv_countElement_addon: "classInv s \<Longrightarrow> classInv (countElement_addon ty self x s)"
  unfolding classInv_def
  by (auto simp: countElement_addon_def Let_def dragOverElement_def dragOffElement_def dragcount_def)

lemma classInv_fold: "classInv s \<Longrightarrow> classInv (fold (countElement_addon ty self) xs s)"
  by (induction xs arbitrary: s) (simp_all add: classInv_countElement_addon)

lemma classInv_calculateDropCount_addon:
  "classInv s \<Longrightarrow> classInv (snd (calculateDropCount_addon self e s))"
  by (simp add: calculateDropCount_addon_def classInv_fold)

lemma classInv_runHandlers_addon:
  "classInv s \<Longrightarrow> classInv (snd (runHandlers_addon hs (e, s)))"
proof (induction hs arbitrary: e s)
  case Nil
  then show ?case by (simp add: runHandlers_addon_def)
next
  case (Cons h hs)
  obtain e1 s1 where c: "calculateDropCount_addon h e s = (e1, s1)"
    by (cases "calculateDropCount_addon h e s")
  with classInv_calculateDropCount_addon [OF Cons.prems, of h e] have "classInv s1" by simp
  with Cons.IH [of s1 e1] c show ?case
    by (simp add: runHandlers_addon_def)
qed

lemma classInv_trigger_addon: "classInv s \<Longrightarrow> classInv (snd (trigger_addon e s))"
  by (simp add: trigger_addon_def classInv_runHandlers_addon)

lemma classInv_trigger_all_addon: "classInv s \<Longrightarrow> classInv (trigger_all_addon es s)"
  by (induction es arbitrary: s) (simp_all add: classInv_trigger_addon)

lemma classInv_freshPage: "classInv (freshPage cl cs)"
  by (simp add: classInv_def freshPage_def dragcount_def)

lemma classInv_setup: "classInv (setupEventListeners i s) = classInv s"
  by (simp add: classInv_def setupEventListeners_def dragcount_def)

text \<open>
  In this variant the hover class of an element follows the element's own counter, with
  any number of mounted instances.
\<close>

lemma addon_class_follows_counter:
  "classInv s \<Longrightarrow>
     dragOverClass (trigger_all_addon es s) x = (dragcount (trigger_all_addon es s) x > 0)"
  using classInv_trigger_all_addon [of s es] by (simp add: classInv_def)

lemmas eval_addon_defs =
  trigger_addon_def runHandlers_addon_def calculateDropCount_addon_def countElement_addon_def
  dragOverElement_def dragOffElement_def

lemma addon_siblings:
  "dragOverClass afterEnterA_addon [0, 0] \<and> \<not> dragOverClass afterEnterA_addon [0, 1]
   \<and> dragOverClass afterEnterA_addon [0]
   \<and> \<not> dragOverClass afterEnterLeaveA_addon [0, 0] \<and> \<not> dragOverClass afterEnterLeaveA_addon [0, 1]
   \<and> \<not> dragOverClass afterEnterLeaveA_addon [0]"
  by (simp add: afterEnterA_addon_def afterEnterLeaveA_addon_def enterLeaveA_def eval_addon_defs
      eval_defs)

lemma cleanUp_addon_keeps_counters:
  "jqdata (cleanUp_addon self s) (x, ''dragcount'') = jqdata s (x, ''dragcount'')"
  by (simp add: cleanUp_addon_def removeData_def)

section \<open>The claims about the drop\<close>



text \<open>
  Claim C6 (empty drop). A drop that carries no file returns after the reset: the resulting
  page is the page before with the two flags of the target off, the root's drag-over class
  removed and the \<open>dragcount\<close> entries removed, and nothing else changed; no handler is
  called, and \<open>isDropped\<close>, \<open>file\<close> and \<open>files\<close> keep their values.
\<close>

theorem empty_drop_is_only_the_reset:
  assumes "items (dataTransfer_files e) = []"
  shows "drop_event self e s =
     (Returned, e\<lparr>defaultPrevented := True\<rparr>,
      s\<lparr>inst := (inst s)(self := (inst s self)\<lparr>isDraggingOver := False, isDragging := False\<rparr>),
        dragOverClass := (dragOverClass s)(rootElement s := False),
        jqdata := (\<lambda>(x, k). if (x \<in> set (classed s) \<or> x = rootElement s) \<and> k = ''dragcount''
                             then None else jqdata s (x, k))\<rparr>)
   \<and> calls (snd (snd (drop_event self e s))) = calls s
   \<and> isDropped (inst (snd (snd (drop_event self e s))) self) = isDropped (inst s self)
   \<and> fileProp (inst (snd (snd (drop_event self e s))) self) = fileProp (inst s self)
   \<and> files (inst (snd (snd (drop_event self e s))) self) = files (inst s self)"
  using assms by (simp add: drop_event_cases Let_def cleanUp_fields) (simp add: cleanUp_eq)

theorem empty_drop_is_only_the_reset_witness:
  "items (dataTransfer_files (dropOf [0, 0] (FileList []))) = []
   \<and> fst (drop_event ''ember1'' (dropOf [0, 0] (FileList [])) (hoveredPage False image_only)) = Returned
   \<and> calls (snd (snd (drop_event ''ember1'' (dropOf [0, 0] (FileList []))
        (hoveredPage False image_only)))) = []
   \<and> isDropped (inst (snd (snd (drop_event ''ember1'' (dropOf [0, 0] (FileList []))
        (hoveredPage False image_only)))) ''ember1'') = False"
proof -
  have h: "items (dataTransfer_files (dropOf [0, 0] (FileList []))) = []"
    by (simp add: dropOf_def)
  show ?thesis
    using empty_drop_is_only_the_reset [OF h, of "''ember1''" "hoveredPage False image_only"] h
    by (simp add: hoveredPage_fields)
qed

text \<open>
  Claim C5 (type filtering), as amended. A drop that carries at least one file and runs to
  its end considers the files that remain after the limit to a single file: only the first
  one when several were dropped and \<open>allowMultiple\<close> is false. Each considered file whose
  type fails to match is passed once to \<open>invalidFileType\<close>, when the consumer supplied that
  handler, in list order and without stopping the others; then each considered file that
  matches is passed to \<open>fileDropped\<close>, when supplied, in list order. With \<open>allowMultiple\<close>
  the output \<open>files\<close> is the list of the matching considered files in their order;
  without it the output \<open>file\<close> is the first of them, or undefined when there is none.
\<close>

theorem type_filtering_after_truncation:
  assumes "drop_event self e s = (Returned, e', s')" and "items (dataTransfer_files e) \<noteq> []"
  shows "(let c = inst s self;
              fs = considered (allowMultiple c) (items (dataTransfer_files e));
              matched = filter (\<lambda>f. allowedTypes c (file_type f)) fs;
              failed = filter (\<lambda>f. \<not> allowedTypes c (file_type f)) fs
          in calls s' = calls s
                @ (if invalidFileType c then map (InvalidFileType_call self) failed else [])
                @ (if fileDropped c then map (FileDropped_call self) matched else [])
           \<and> (if allowMultiple c then files (inst s' self) = Some matched
               else fileProp (inst s' self) = (case matched of [] \<Rightarrow> None | f # _ \<Rightarrow> Some f)))"
  using drop_event_returned [OF assms]
  by (simp add: delivered_def Let_def cleanUp_fields)

theorem type_filtering_after_truncation_witness:
  "fst multiDrop = Returned
   \<and> items (dataTransfer_files (dropOf [0, 0] (FileList [pngFile, txtFile, gifFile]))) \<noteq> []
   \<and> calls (snd (snd multiDrop)) =
       [InvalidFileType_call ''ember1'' txtFile,
        FileDropped_call ''ember1'' pngFile, FileDropped_call ''ember1'' gifFile]
   \<and> files (inst (snd (snd multiDrop)) ''ember1'') = Some [pngFile, gifFile]"
proof -
  have r: "fst multiDrop = Returned"
    by (simp add: multiDrop_def drop_event_cases dropOf_def hoveredPage_fields)
  have h1: "drop_event ''ember1'' (dropOf [0, 0] (FileList [pngFile, txtFile, gifFile]))
       (hoveredPage True image_only) = (Returned, fst (snd multiDrop), snd (snd multiDrop))"
    using r by (simp add: multiDrop_def prod_eq_iff)
  have h2: "items (dataTransfer_files (dropOf [0, 0] (FileList [pngFile, txtFile, gifFile]))) \<noteq> []"
    by (simp add: dropOf_def)
  show ?thesis
    using type_filtering_after_truncation [OF h1 h2] r h2
    by (simp add: hoveredPage_fields file_types considered_def dropOf_def Let_def)
qed

text \<open>
  The claim as it was stated speaks of every drop and every file: with \<open>allowMultiple\<close>
  false, a text file dropped after an image is cut off before the filter and is not
  reported.
\<close>

theorem type_filtering_counterexample:
  "\<not> allowedTypes (inst (hoveredPage False image_only) ''ember1'') (file_type txtFile)
   \<and> fst pngThenTxtDrop = Returned
   \<and> InvalidFileType_call ''ember1'' txtFile \<notin> set (calls (snd (snd pngThenTxtDrop)))
   \<and> calls (snd (snd pngThenTxtDrop)) = [FileDropped_call ''ember1'' pngFile]"
  by (simp add: pngThenTxtDrop_def drop_event_cases dropOf_def delivered_out hoveredPage_fields
      file_types)

text \<open>
  Claim C4 (single-file coercion), as amended. When more than one file is dropped as an
  array on a target whose \<open>allowMultiple\<close> is false, the drop runs to its end and is the
  drop of the first file alone: that file is delivered (passed to \<open>fileDropped\<close> and set as
  \<open>file\<close>) when its type matches \<open>allowedTypes\<close>, and is passed to \<open>invalidFileType\<close> with
  nothing delivered when it does not; the other files cause no call.
\<close>

theorem single_file_coercion:
  assumes "dataTransfer_files e = Array fs" and "length fs > 1"
    and "\<not> allowMultiple (inst s self)" and "drop_event self e s = (r, e', s')"
  shows "r = Returned
       \<and> s' = snd (snd (drop_event self (e\<lparr>dataTransfer_files := Array [hd fs]\<rparr>) s))
       \<and> calls s' = calls s @
           (if allowedTypes (inst s self) (file_type (hd fs))
            then (if fileDropped (inst s self) then [FileDropped_call self (hd fs)] else [])
            else (if invalidFileType (inst s self) then [InvalidFileType_call self (hd fs)] else []))
       \<and> fileProp (inst s' self) =
           (if allowedTypes (inst s self) (file_type (hd fs)) then Some (hd fs) else None)"
proof -
  from assms(2) obtain f fs' where fs: "fs = f # fs'" by (cases fs) auto
  have d: "drop_event self e s = (Returned, e\<lparr>defaultPrevented := True\<rparr>, delivered self [f] s)"
    using assms(1,2,3) by (simp add: drop_event_cases Let_def fs)
  have d1: "snd (snd (drop_event self (e\<lparr>dataTransfer_files := Array [hd fs]\<rparr>) s))
              = delivered self [f] s"
    by (simp add: drop_event_cases Let_def fs)
  have r: "r = Returned" and s': "s' = delivered self [f] s"
    using d assms(4) by simp_all
  have c: "calls (delivered self [f] s) = calls s @
           (if allowedTypes (inst s self) (file_type f)
            then (if fileDropped (inst s self) then [FileDropped_call self f] else [])
            else (if invalidFileType (inst s self) then [InvalidFileType_call self f] else []))"
    by (simp add: delivered_def Let_def)
  have p: "fileProp (inst (delivered self [f] s) self) =
           (if allowedTypes (inst s self) (file_type f) then Some f else None)"
    using assms(3) by (simp add: delivered_def Let_def)
  show ?thesis
    unfolding r s' d1 using c p by (simp add: fs)
qed

theorem single_file_coercion_witness:
  "dataTransfer_files (dropOf [0, 0] (Array [pngFile, txtFile])) = Array [pngFile, txtFile]
   \<and> length [pngFile, txtFile] > 1
   \<and> \<not> allowMultiple (inst (hoveredPage False image_only) ''ember1'')
   \<and> fst pngThenTxtDrop = Returned
   \<and> calls (snd (snd pngThenTxtDrop)) = [FileDropped_call ''ember1'' pngFile]
   \<and> fileProp (inst (snd (snd pngThenTxtDrop)) ''ember1'') = Some pngFile"
proof -
  have h1: "dataTransfer_files (dropOf [0, 0] (Array [pngFile, txtFile])) = Array [pngFile, txtFile]"
    by (simp add: dropOf_def)
  have h2: "length [pngFile, txtFile] > 1" by simp
  have h3: "\<not> allowMultiple (inst (hoveredPage False image_only) ''ember1'')"
    by (simp add: hoveredPage_fields)
  have h4: "drop_event ''ember1'' (dropOf [0, 0] (Array [pngFile, txtFile])) (hoveredPage False image_only)
      = (fst pngThenTxtDrop, fst (snd pngThenTxtDrop), snd (snd pngThenTxtDrop))"
    by (simp add: pngThenTxtDrop_def)
  note w = single_file_coercion [OF h1 h2 h3 h4]
  show ?thesis
    using w [THEN conjunct1] w [THEN conjunct2, THEN conjunct2] h1 h3
    by (simp add: hoveredPage_fields file_types)
qed

text \<open>
  The claim as it was stated promises that the first file is delivered: a first file of
  unknown type fails the default pattern, so nothing is delivered.
\<close>

theorem single_file_coercion_counterexample:
  "length [untypedFile, pngFile, gifFile] > 1
   \<and> \<not> allowMultiple (inst (hoveredPage False allowedTypes_default) ''ember1'')
   \<and> fst untypedFirstDrop = Returned
   \<and> calls (snd (snd untypedFirstDrop)) = [InvalidFileType_call ''ember1'' untypedFile]
   \<and> fileProp (inst (snd (snd untypedFirstDrop)) ''ember1'') = None
   \<and> files (inst (snd (snd untypedFirstDrop)) ''ember1'') = None"
  by (simp add: untypedFirstDrop_def drop_event_cases dropOf_def delivered_out hoveredPage_fields
      file_types)

text \<open>
  With a \<open>FileList\<close>, which is what a browser passes, the limit to one file does not run
  to its end: \<open>slice\<close> is not a method of it.
\<close>

lemma fileList_slice_raises:
  "fst fileListDrop = TypeError \<and> calls (snd (snd fileListDrop)) = []
   \<and> \<not> isDropped (inst (snd (snd fileListDrop)) ''ember1'')"
  by (simp add: fileListDrop_def drop_event_cases dropOf_def hoveredPage_fields cleanUp_fields)

section \<open>The derived signal \<open>isEmpty\<close>\<close>

text \<open>
  Claim C10. \<open>isEmpty\<close> is the negation of "\<open>isLoading\<close> or \<open>isLoaded\<close>": it is true exactly
  when both are falsy. It does not depend on the drag, hover and drop state of the
  component, and no \<open>dragenter\<close>, \<open>dragleave\<close> or \<open>drop\<close> changes it.
\<close>

theorem isEmpty_only_loading_state:
  "isEmpty c = (\<not> truthy (isLoading c) \<and> \<not> truthy (isLoaded c))
   \<and> isEmpty (c\<lparr>isDragging := a, isDraggingOver := b, isDropped := d, fileProp := f, files := fs\<rparr>)
       = isEmpty c
   \<and> isEmpty (inst (snd (trigger e s)) i) = isEmpty (inst s i)
   \<and> isEmpty (inst (snd (snd (drop_event self e s))) i) = isEmpty (inst s i)"
proof -
  have 1: "isLoading (inst (snd (trigger e s)) i) = isLoading (inst s i)"
    by (rule trigger_preserve [of "\<lambda>s. isLoading (inst s i)"]) (rule countElement_isLoading)
  have 2: "isLoaded (inst (snd (trigger e s)) i) = isLoaded (inst s i)"
    by (rule trigger_preserve [of "\<lambda>s. isLoaded (inst s i)"]) (rule countElement_isLoaded)
  have 3: "isLoading (inst (snd (snd (drop_event self e s))) i) = isLoading (inst s i)"
       "isLoaded (inst (snd (snd (drop_event self e s))) i) = isLoaded (inst s i)"
    using drop_event_page [of self e s] by (auto simp: cleanUp_fields delivered_fields)
  show ?thesis by (simp add: isEmpty_def 1 2 3)
qed

section \<open>The claims about the counting\<close>

text \<open>
  Claim C8 (nesting), as amended. Let \<open>p\<close> be a drop target below the root and \<open>c\<close> an
  element nested in it. A \<open>dragenter\<close> on \<open>c\<close> adds one to the counter of \<open>p\<close> for every
  registered handler, and to the counter of \<open>c\<close> exactly when \<open>c\<close> carries the class
  \<open>file-drop-target\<close> itself; a plain child gets no counter. The pair of a \<open>dragenter\<close> on
  \<open>c\<close> and a \<open>dragleave\<close> on \<open>p\<close>, in either order, leaves the counter of \<open>p\<close> as it was.
\<close>

theorem nested_enter_counts:
  assumes "p \<in> set (classed s)" and "strict_prefix p c" and "prefix (rootElement s) p"
    and "etype e1 = dragenter" and "target e1 = c"
    and "etype e2 = dragleave" and "target e2 = p"
  shows "dragcount (snd (trigger e1 s)) p = dragcount s p + int (length (listeners s))
       \<and> dragcount (snd (trigger e1 s)) c =
           dragcount s c + (if c \<in> set (classed s) then int (length (listeners s)) else 0)
       \<and> dragcount (trigger_all [e1, e2] s) p = dragcount s p
       \<and> dragcount (trigger_all [e2, e1] s) p = dragcount s p"
proof -
  have pc: "prefix p c" and ne: "c \<noteq> rootElement s" and rc: "prefix (rootElement s) c"
    using assms(2,3) by (auto simp: strict_prefix_def dest: prefix_order.antisym prefix_order.trans)
  have inp: "p \<in> set (dropTargets s c)" "p \<in> set (dropTargets s p)"
    using assms(1) pc by (simp_all add: set_dropTargets)
  have inc: "c \<in> set (dropTargets s c) \<longleftrightarrow> c \<in> set (classed s)"
    using ne by (auto simp: set_dropTargets)
  have 1: "dragcount (snd (trigger e1 s)) p = dragcount s p + int (length (listeners s))"
    using assms(4,5) rc inp by (simp add: dragcount_trigger offset_of_def)
  have 2: "dragcount (snd (trigger e1 s)) c =
           dragcount s c + (if c \<in> set (classed s) then int (length (listeners s)) else 0)"
    using assms(4,5) rc inc by (simp add: dragcount_trigger offset_of_def)
  have 3: "dragcount (trigger_all [e1, e2] s) p = dragcount s p"
    using assms(3-7) rc inp
    by (simp add: dragcount_trigger offset_of_def trigger_listeners trigger_rootElement
        trigger_dropTargets)
  have 4: "dragcount (trigger_all [e2, e1] s) p = dragcount s p"
    using assms(3-7) rc inp
    by (simp add: dragcount_trigger offset_of_def trigger_listeners trigger_rootElement
        trigger_dropTargets)
  from 1 2 3 4 show ?thesis by simp
qed

theorem nested_enter_counts_witness:
  "[0, 0] \<in> set (classed nestedPage) \<and> strict_prefix [0, 0] [0, 0, 0]
   \<and> prefix (rootElement nestedPage) [0, 0]
   \<and> dragcount (snd (trigger (dragEvent dragenter [0, 0, 0]) nestedPage)) [0, 0] = 2
   \<and> dragcount (snd (trigger (dragEvent dragenter [0, 0, 0]) nestedPage)) [0, 0, 0] = 2
   \<and> dragcount (trigger_all [dragEvent dragenter [0, 0, 0], dragEvent dragleave [0, 0]] nestedPage)
        [0, 0] = 0"
proof -
  have h1: "[0, 0] \<in> set (classed nestedPage)" by (simp add: nestedPage_fields)
  have h2: "strict_prefix [0, 0] [0, 0, (0::nat)]" by (simp add: strict_prefix_def)
  have h3: "prefix (rootElement nestedPage) [0, 0]" by (simp add: nestedPage_fields)
  have h4: "etype (dragEvent dragenter [0, 0, 0]) = dragenter"
     "target (dragEvent dragenter [0, 0, 0]) = [0, 0, 0]"
     "etype (dragEvent dragleave [0, 0]) = dragleave"
     "target (dragEvent dragleave [0, 0]) = [0, 0]"
    by (simp_all add: dragEvent_def)
  note w = nested_enter_counts [OF h1 h2 h3 h4]
  show ?thesis
    using w h1 h2 h3 by (simp add: nestedPage_fields)
qed

text \<open>
  The claim as it was stated increments the counter of the child: on a page with one
  target, a \<open>dragenter\<close> on a plain child of it stores no counter for the child.
\<close>

theorem plain_child_has_no_counter:
  "[0, 0] \<in> set (classed singlePage) \<and> strict_prefix [0, 0] [0, 0, (0::nat)]
   \<and> listeners singlePage = [''ember1'']
   \<and> jqdata afterEnterChild ([0, 0, 0], ''dragcount'') = None
   \<and> dragcount afterEnterChild [0, 0, 0] = dragcount singlePage [0, 0, 0]
   \<and> dragcount afterEnterChild [0, 0] = dragcount singlePage [0, 0] + 1"
  by (simp add: afterEnterChild_def eval_defs strict_prefix_def)




text \<open>
  Claim C1 (hover independence) at a failing input: two sibling targets, both mounted, and a
  \<open>dragenter\<close> on the element of the first. The handler of the second instance runs for
  the same event and sets its own \<open>isDraggingOver\<close> for the element of the first: the hover
  flag of the second target is on while its own counter is 0, and the counter of the first
  is 2. Both see the page-wide flag on.
\<close>

theorem sibling_enter_sets_other_hover_flag:
  "element (inst siblingsPage ''ember1'') = [0, 0]
   \<and> element (inst siblingsPage ''ember2'') = [0, 1]
   \<and> \<not> prefix [0, 0] [0, (1::nat)] \<and> \<not> prefix [0, 1] [0, (0::nat)]
   \<and> \<not> isDraggingOver (inst siblingsPage ''ember2'')
   \<and> isDraggingOver (inst afterEnterA ''ember2'')
   \<and> dragcount afterEnterA (element (inst afterEnterA ''ember2'')) = 0
   \<and> isDraggingOver (inst afterEnterA ''ember1'')
   \<and> dragcount afterEnterA (element (inst afterEnterA ''ember1'')) = 2
   \<and> isDragging (inst afterEnterA ''ember1'') \<and> isDragging (inst afterEnterA ''ember2'')"
  by (simp add: afterEnterA_def eval_defs)

text \<open>
  Claim C7 (balanced sequences) at a failing input: two sibling targets, both mounted, a
  \<open>dragenter\<close> and then a \<open>dragleave\<close> on the element of the first. All counters are back at
  0, but the flags \<open>isDraggingOver\<close> and \<open>isDragging\<close> of the instance registered first are
  still on: its handler saw the counters at 1 on the \<open>dragleave\<close>, before the handler of the
  second instance brought them to 0.
\<close>

theorem balanced_leaves_first_instance_hovered:
  "balanced enterLeaveA
   \<and> dragcount afterEnterLeaveA [0] = 0
   \<and> dragcount afterEnterLeaveA [0, 0] = 0
   \<and> dragcount afterEnterLeaveA [0, 1] = 0
   \<and> isDraggingOver (inst afterEnterLeaveA ''ember1'')
   \<and> isDragging (inst afterEnterLeaveA ''ember1'')
   \<and> \<not> isDraggingOver (inst afterEnterLeaveA ''ember2'')
   \<and> \<not> isDragging (inst afterEnterLeaveA ''ember2'')"
  by (simp add: afterEnterLeaveA_def enterLeaveA_def balanced_def enters_def leaves_def eval_defs)

section \<open>The claim about \<open>dragover\<close>\<close>

text \<open>
  Claim C2 (drag-over) at a failing input: a mounted target whose counter is 1 after a
  \<open>dragenter\<close> on it. \<open>getDropEffect\<close> reads the key \<open>dropcount\<close>, which nothing writes, and
  answers \<open>none\<close>; \<open>dragOver\<close> prevents the default and leaves the effect of the event unset,
  and the \<open>dragOver\<close> of \<open>addon/components/file-drop-target.js\<close> sets it to \<open>none\<close>. Neither
  changes the page.
\<close>

theorem dragOver_never_reports_copy:
  "dragcount (hoveredPage False allowedTypes_default)
      (element (inst (hoveredPage False allowedTypes_default) ''ember1'')) = 1
   \<and> getDropEffect ''ember1'' (hoveredPage False allowedTypes_default) = ''none''
   \<and> dragOver ''ember1'' (dragEvent dragover [0, 0]) (hoveredPage False allowedTypes_default)
       = ((dragEvent dragover [0, 0])\<lparr>defaultPrevented := True\<rparr>,
          hoveredPage False allowedTypes_default)
   \<and> dataTransfer_dropEffect (fst (dragOver ''ember1'' (dragEvent dragover [0, 0])
         (hoveredPage False allowedTypes_default))) = None
   \<and> dragOver_addon ''ember1'' (dragEvent dragover [0, 0]) (hoveredPage False allowedTypes_default)
       = ((dragEvent dragover [0, 0])\<lparr>defaultPrevented := True,
            dataTransfer_dropEffect := Some ''none''\<rparr>,
          hoveredPage False allowedTypes_default)"
  by (simp add: dragOver_def dragOver_addon_def getDropEffect_def eval_defs)

end
